theory Spec2Isabelle
  imports Main
begin

section \<open>I18nService: data model\<close>

text \<open>
  \<^verbatim>\<open>src/services/I18nService.ts\<close>. A \<^verbatim>\<open>TranslationData\<close> object maps property names to
  either a string or a nested \<^verbatim>\<open>TranslationData\<close>; it is kept as the association list of its
  own properties, read with \<open>map_of\<close>. The dictionaries are plain objects (parsed JSON or
  object literals), so each of them inherits the members of \<^verbatim>\<open>Object.prototype\<close>.

  Strings are \<open>char list\<close>. The code works on UTF-16 code units and the model on bytes;
  every character the code inspects (\<^verbatim>\<open>.\<close>, \<^verbatim>\<open>{\<close>, \<^verbatim>\<open>}\<close>, \<^verbatim>\<open>$\<close>) is ASCII, so the two agree
  on UTF-8 encoded text.
\<close>

datatype Language = He | En

datatype TextDirection = Rtl | Ltr

datatype tvalue = TStr string | TData "(string \<times> tvalue) list"

type_synonym TranslationData = "(string \<times> tvalue) list"

record Translations =
  he :: TranslationData
  en :: TranslationData

fun translations_of :: "Translations \<Rightarrow> Language \<Rightarrow> TranslationData" where
  "translations_of t He = he t"
| "translations_of t En = en t"

subsection \<open>\<^verbatim>\<open>key.split('.')\<close>\<close>

text \<open>
  JavaScript's \<^verbatim>\<open>split\<close> with a one-character separator: the result is never empty,
  \<^verbatim>\<open>''.split('.')\<close> is \<^verbatim>\<open>['']\<close> and \<^verbatim>\<open>'a..b'.split('.')\<close> is \<^verbatim>\<open>['a', '', 'b']\<close>.
\<close>

fun split_dot :: "string \<Rightarrow> string list" where
  "split_dot [] = [[]]"
| "split_dot (c # cs) =
     (if c = CHR ''.'' then [] # split_dot cs
      else (case split_dot cs of
              w # ws \<Rightarrow> (c # w) # ws
            | [] \<Rightarrow> [[c]]))"

subsection \<open>Values and properties\<close>

text \<open>
  The variable \<^verbatim>\<open>value\<close> of \<^verbatim>\<open>translate\<close> has type \<^verbatim>\<open>any\<close>. Starting from a dictionary it can
  hold a string or a nested dictionary and, through inherited properties, a built-in
  function (\<^verbatim>\<open>toString\<close>, \<^verbatim>\<open>constructor\<close>, ...), \<^verbatim>\<open>Object.prototype\<close> itself (the value of
  \<^verbatim>\<open>__proto__\<close>) or \<^verbatim>\<open>null\<close> (the value of \<^verbatim>\<open>Object.prototype.__proto__\<close>).
\<close>

datatype jsvalue =
    Str string
  | Obj TranslationData
  | ObjectPrototype
  | BuiltinFunction string
  | Null

fun of_tvalue :: "tvalue \<Rightarrow> jsvalue" where
  "of_tvalue (TStr s) = Str s"
| "of_tvalue (TData d) = Obj d"

text \<open>The property names of \<^verbatim>\<open>Object.prototype\<close> (ECMAScript, with Annex B).\<close>

definition Object_prototype_names :: "string list" where
  "Object_prototype_names =
     [''constructor'', ''hasOwnProperty'', ''isPrototypeOf'', ''propertyIsEnumerable'',
      ''toLocaleString'', ''toString'', ''valueOf'', ''__proto__'', ''__defineGetter__'',
      ''__defineSetter__'', ''__lookupGetter__'', ''__lookupSetter__'']"

text \<open>
  One step of either loop: \<open>get_property value k\<close> is \<open>None\<close> when the test
  \<^verbatim>\<open>value && typeof value === 'object' && k in value\<close> fails and \<open>Some (value[k])\<close> when it
  holds. The operator \<^verbatim>\<open>in\<close> finds own and inherited properties; an own property hides an
  inherited one of the same name. \<^verbatim>\<open>typeof\<close> of a function is \<^verbatim>\<open>'function'\<close>, and \<^verbatim>\<open>null\<close> and
  the empty string are falsy.
\<close>

fun get_property :: "jsvalue \<Rightarrow> string \<Rightarrow> jsvalue option" where
  "get_property (Obj ps) k =
     (case map_of ps k of
        Some v \<Rightarrow> Some (of_tvalue v)
      | None \<Rightarrow>
          if k \<in> set Object_prototype_names
          then Some (if k = ''__proto__'' then ObjectPrototype else BuiltinFunction k)
          else None)"
| "get_property ObjectPrototype k =
     (if k \<in> set Object_prototype_names
      then Some (if k = ''__proto__'' then Null else BuiltinFunction k)
      else None)"
| "get_property (Str s) k = None"
| "get_property (BuiltinFunction n) k = None"
| "get_property Null k = None"

subsection \<open>Walking a dotted path\<close>

text \<open>
  The inner loop of \<^verbatim>\<open>translate\<close> (lines 102-109) walks the English dictionary with all
  the segments; \<open>None\<close> is the early \<^verbatim>\<open>return key\<close>.
\<close>

fun lookup_path :: "jsvalue \<Rightarrow> string list \<Rightarrow> jsvalue option" where
  "lookup_path v [] = Some v"
| "lookup_path v (k # ks) =
     (case get_property v k of
        Some v' \<Rightarrow> lookup_path v' ks
      | None \<Rightarrow> None)"

text \<open>
  The outer loop (lines 96-112) walks the active dictionary; at the first segment that
  cannot be followed it abandons the walk, runs the inner loop from the root of the
  English dictionary with the full list \<open>keys\<close>, and breaks.
\<close>

fun walk :: "TranslationData \<Rightarrow> string list \<Rightarrow> jsvalue \<Rightarrow> string list \<Rightarrow> jsvalue option" where
  "walk en_root keys v [] = Some v"
| "walk en_root keys v (k # ks) =
     (case get_property v k of
        Some v' \<Rightarrow> walk en_root keys v' ks
      | None \<Rightarrow> lookup_path (Obj en_root) keys)"

text \<open>
  The spec speaks of a key that is present in, or absent from, a dictionary. That is a
  statement about the dictionary's data: \<open>own_path\<close> follows the segments through the
  entries of the dictionary alone.
\<close>

fun own_path :: "tvalue \<Rightarrow> string list \<Rightarrow> tvalue option" where
  "own_path v [] = Some v"
| "own_path (TStr s) (k # ks) = None"
| "own_path (TData ps) (k # ks) =
     (case map_of ps k of
        Some v' \<Rightarrow> own_path v' ks
      | None \<Rightarrow> None)"

subsection \<open>Parameter interpolation\<close>

text \<open>
  Lines 120-126 fold \<^verbatim>\<open>result.replace(new RegExp(`{{${paramKey}}}`, 'g'), paramValue)\<close> over
  \<^verbatim>\<open>Object.entries(params)\<close>. The parameter name goes into the pattern unescaped, so what
  the pattern matches depends on the name:
  \<^item> a name without regular-expression syntax characters that does not start with a digit
    gives a pattern that matches exactly the text \<^verbatim>\<open>{{name}}\<close> (a brace that does not open
    a quantifier is an ordinary character);
  \<^item> a name whose only syntax character is \<^verbatim>\<open>(\<close> opens a group that is never closed, and
    the \<^verbatim>\<open>RegExp\<close> constructor throws \<^verbatim>\<open>SyntaxError\<close>;
  \<^item> any other name (\<^verbatim>\<open>.\<close>, \<^verbatim>\<open>*\<close>, a leading digit that may form a quantifier, ...) compiles
    to a pattern whose matches this embedding does not compute.
\<close>

datatype regexp = RxLiteral | RxSyntaxError | RxOther

definition syntax_char :: "char \<Rightarrow> bool" where
  "syntax_char c \<longleftrightarrow> c \<in> set ''^$.*+?()[]{}|'' \<or> c = CHR 0x5C"

definition digit_char :: "char \<Rightarrow> bool" where
  "digit_char c \<longleftrightarrow> c \<in> set ''0123456789''"

definition regexp_of_param :: "string \<Rightarrow> regexp" where
  "regexp_of_param k =
     (if k \<noteq> [] \<and> \<not> digit_char (hd k) \<and> list_all (\<lambda>c. \<not> syntax_char c) k then RxLiteral
      else if CHR ''('' \<in> set k \<and> list_all (\<lambda>c. if syntax_char c then c = CHR ''('' else True) k
      then RxSyntaxError
      else RxOther)"

text \<open>
  The replacement is a string, so \<^verbatim>\<open>String.prototype.replace\<close> expands it for each match
  (ECMAScript \<^verbatim>\<open>GetSubstitution\<close>): \<^verbatim>\<open>$$\<close> is a dollar sign, \<^verbatim>\<open>$&\<close> the matched text,
  \<^verbatim>\<open>$`\<close> the text preceding the match and \<^verbatim>\<open>$'\<close> the text following it. The pattern has no
  capture groups, so \<^verbatim>\<open>$1\<close> ... \<^verbatim>\<open>$99\<close> and \<^verbatim>\<open>$<\<close> stay as they are.
\<close>

fun get_substitution :: "string \<Rightarrow> string \<Rightarrow> string \<Rightarrow> string \<Rightarrow> string" where
  "get_substitution matched preceding following [] = []"
| "get_substitution matched preceding following [c] = [c]"
| "get_substitution matched preceding following (c # d # r) =
     (if c = CHR ''$'' \<and> d = CHR ''$'' then CHR ''$'' # get_substitution matched preceding following r
      else if c = CHR ''$'' \<and> d = CHR ''&'' then matched @ get_substitution matched preceding following r
      else if c = CHR ''$'' \<and> d = CHR 0x60 then preceding @ get_substitution matched preceding following r
      else if c = CHR ''$'' \<and> d = CHR 0x27 then following @ get_substitution matched preceding following r
      else c # get_substitution matched preceding following (d # r))"

definition placeholder :: "string \<Rightarrow> string" where
  "placeholder k = ''{{'' @ k @ ''}}''"

text \<open>
  A global replace with a literal pattern: matches are found left to right and do not
  overlap; \<open>preceding\<close> is the part of the subject already passed, \<open>rest\<close> what remains.
\<close>

function replace_placeholder :: "string \<Rightarrow> string \<Rightarrow> string \<Rightarrow> string \<Rightarrow> string" where
  "replace_placeholder k repl preceding rest =
     (if rest = [] then []
      else if take (length (placeholder k)) rest = placeholder k
      then get_substitution (placeholder k) preceding (drop (length (placeholder k)) rest) repl
           @ replace_placeholder k repl (preceding @ placeholder k) (drop (length (placeholder k)) rest)
      else hd rest # replace_placeholder k repl (preceding @ [hd rest]) (tl rest))"
  by pat_completeness auto
termination
  by (relation "measure (\<lambda>(k, repl, preceding, rest). length rest)") (auto simp: placeholder_def)

declare replace_placeholder.simps [simp del]

datatype translate_result = Returned string | ThrewSyntaxError | RegExpNotModelled

text \<open>The fold of lines 121-125 when every pattern is a literal.\<close>

definition replace_all_params :: "(string \<times> string) list \<Rightarrow> string \<Rightarrow> string" where
  "replace_all_params ps v = foldl (\<lambda>result p. replace_placeholder (fst p) (snd p) [] result) v ps"

fun interpolate :: "(string \<times> string) list \<Rightarrow> string \<Rightarrow> translate_result" where
  "interpolate [] result = Returned result"
| "interpolate ((paramKey, paramValue) # ps) result =
     (case regexp_of_param paramKey of
        RxLiteral \<Rightarrow> interpolate ps (replace_placeholder paramKey paramValue [] result)
      | RxSyntaxError \<Rightarrow> ThrewSyntaxError
      | RxOther \<Rightarrow> RegExpNotModelled)"

section \<open>I18nService: the service object\<close>

text \<open>
  A listener is a function object; the \<^verbatim>\<open>Set\<close> compares listeners by identity, which is
  a number here. The set keeps insertion order, so it is a list without repetitions.
\<close>

type_synonym listener = nat

definition js_set_add :: "'a \<Rightarrow> 'a list \<Rightarrow> 'a list" where
  "js_set_add x xs = (if x \<in> set xs then xs else xs @ [x])"

definition js_set_delete :: "'a \<Rightarrow> 'a list \<Rightarrow> 'a list" where
  "js_set_delete x xs = filter (\<lambda>y. y \<noteq> x) xs"

record I18nService =
  currentLanguage :: Language
  i18n_translations :: Translations
  listeners :: "listener list"

definition getLanguage :: "I18nService \<Rightarrow> Language" where
  "getLanguage svc = currentLanguage svc"

definition getDirection :: "I18nService \<Rightarrow> TextDirection" where
  "getDirection svc = (if currentLanguage svc = He then Rtl else Ltr)"

text \<open>
  \<^verbatim>\<open>translate(key, params?)\<close>, lines 91-129. \<open>params\<close> is \<open>None\<close> when the argument is left
  out and otherwise the list \<^verbatim>\<open>Object.entries(params)\<close>. The two early returns of the key
  come before any parameter is looked at.
\<close>

definition translate :: "I18nService \<Rightarrow> string \<Rightarrow> (string \<times> string) list option \<Rightarrow> translate_result" where
  "translate svc key params =
     (let keys = split_dot key in
      case walk (en (i18n_translations svc)) keys
             (Obj (translations_of (i18n_translations svc) (currentLanguage svc))) keys of
        Some (Str v) \<Rightarrow>
          (case params of
             None \<Rightarrow> Returned v
           | Some ps \<Rightarrow> interpolate ps v)
      | _ \<Rightarrow> Returned key)"

subsection \<open>The browser's key-value store\<close>

text \<open>
  \<^verbatim>\<open>localStorage.getItem\<close> and \<^verbatim>\<open>setItem\<close> may throw (storage disabled, quota exceeded).
  Whether they do is a condition of the environment, kept in the store's state.
\<close>

datatype storage_error = QuotaExceededError | SecurityError

record storage =
  items :: "string \<rightharpoonup> string"
  get_fails :: "storage_error option"
  set_fails :: "storage_error option"

definition getItem :: "storage \<Rightarrow> string \<Rightarrow> storage_error + string option" where
  "getItem st k = (case get_fails st of Some e \<Rightarrow> Inl e | None \<Rightarrow> Inr (items st k))"

definition setItem :: "storage \<Rightarrow> string \<Rightarrow> string \<Rightarrow> storage_error + storage" where
  "setItem st k v =
     (case set_fails st of
        Some e \<Rightarrow> Inl e
      | None \<Rightarrow> Inr (st\<lparr>items := (items st)(k \<mapsto> v)\<rparr>))"

definition STORAGE_KEY :: string where
  "STORAGE_KEY = ''portfolio_language''"

fun language_string :: "Language \<Rightarrow> string" where
  "language_string He = ''he''"
| "language_string En = ''en''"

subsection \<open>The service with its surroundings\<close>

text \<open>
  \<open>world\<close> is the service object together with what its methods act on: the store, the
  console, and the record \<open>calls\<close> of listener invocations, \<open>(listener, language)\<close> for each.
  The definitions of this subsection are the methods as they run when every registered
  listener returns normally and makes no call on the service (the listeners of this
  repository are React state setters). Listeners that throw or call back are the subject
  of the next subsection.
\<close>

record world =
  service :: I18nService
  localStorage :: storage
  console :: "string list"
  calls :: "(listener \<times> Language) list"

datatype exn = StorageExn storage_error

definition loadLanguageFromStorage :: "storage \<Rightarrow> Language option \<times> string list" where
  "loadLanguageFromStorage st =
     (case getItem st STORAGE_KEY of
        Inr stored \<Rightarrow>
          (if stored = Some ''he'' then (Some He, [])
           else if stored = Some ''en'' then (Some En, [])
           else (None, []))
      | Inl e \<Rightarrow> (None, [''Failed to load language from localStorage:'']))"

definition new_I18nService :: "storage \<Rightarrow> Language \<Rightarrow> world" where
  "new_I18nService st defaultLanguage =
     (let (loaded, warnings) = loadLanguageFromStorage st in
      \<lparr>service = \<lparr>currentLanguage = (case loaded of Some l \<Rightarrow> l | None \<Rightarrow> defaultLanguage),
                  i18n_translations = \<lparr>he = [], en = []\<rparr>,
                  listeners = []\<rparr>,
       localStorage = st,
       console = warnings,
       calls = []\<rparr>)"

text \<open>Lines 49-55: the \<^verbatim>\<open>try\<close> block is the \<open>Inr\<close> branch, the \<^verbatim>\<open>catch\<close> block the \<open>Inl\<close> branch.\<close>

definition saveLanguageToStorage :: "world \<Rightarrow> Language \<Rightarrow> exn + world" where
  "saveLanguageToStorage w language =
     (case setItem (localStorage w) STORAGE_KEY (language_string language) of
        Inr st' \<Rightarrow> Inr (w\<lparr>localStorage := st'\<rparr>)
      | Inl e \<Rightarrow> Inr (w\<lparr>console := console w @ [''Failed to save language to localStorage:'']\<rparr>))"

definition notifyListeners :: "world \<Rightarrow> exn + world" where
  "notifyListeners w =
     Inr (w\<lparr>calls := calls w @ map (\<lambda>l. (l, currentLanguage (service w))) (listeners (service w))\<rparr>)"

definition setLanguage :: "world \<Rightarrow> Language \<Rightarrow> exn + world" where
  "setLanguage w language =
     (let w1 = w\<lparr>service := (service w)\<lparr>currentLanguage := language\<rparr>\<rparr> in
      case saveLanguageToStorage w1 language of
        Inl e \<Rightarrow> Inl e
      | Inr w2 \<Rightarrow> notifyListeners w2)"

definition loadTranslations :: "world \<Rightarrow> Language \<Rightarrow> TranslationData \<Rightarrow> world" where
  "loadTranslations w language d =
     w\<lparr>service := (service w)\<lparr>i18n_translations :=
         (case language of
            He \<Rightarrow> (i18n_translations (service w))\<lparr>he := d\<rparr>
          | En \<Rightarrow> (i18n_translations (service w))\<lparr>en := d\<rparr>)\<rparr>\<rparr>"

text \<open>
  \<^verbatim>\<open>subscribe\<close> returns the closure \<^verbatim>\<open>() => this.listeners.delete(listener)\<close>; it is the
  second component, a function on the world in which it is later called.
\<close>

definition unsubscribe :: "listener \<Rightarrow> world \<Rightarrow> world" where
  "unsubscribe l w = w\<lparr>service := (service w)\<lparr>listeners := js_set_delete l (listeners (service w))\<rparr>\<rparr>"

definition subscribe :: "world \<Rightarrow> listener \<Rightarrow> world \<times> (world \<Rightarrow> world)" where
  "subscribe w l =
     (w\<lparr>service := (service w)\<lparr>listeners := js_set_add l (listeners (service w))\<rparr>\<rparr>,
      unsubscribe l)"

text \<open>
  A program using the service is a sequence of calls. \<open>Unsubscribe l\<close> calls the closure
  that \<open>subscribe\<close> returned for \<open>l\<close>, which is \<open>unsubscribe l\<close>.
\<close>

datatype call =
    SetLanguage Language
  | Subscribe listener
  | Unsubscribe listener
  | LoadTranslations Language TranslationData

fun do_call :: "world \<Rightarrow> call \<Rightarrow> exn + world" where
  "do_call w (SetLanguage x) = setLanguage w x"
| "do_call w (Subscribe l) = Inr (fst (subscribe w l))"
| "do_call w (Unsubscribe l) = Inr (unsubscribe l w)"
| "do_call w (LoadTranslations x d) = Inr (loadTranslations w x d)"

fun do_calls :: "world \<Rightarrow> call list \<Rightarrow> exn + world" where
  "do_calls w [] = Inr w"
| "do_calls w (c # cs) =
     (case do_call w c of
        Inl e \<Rightarrow> Inl e
      | Inr w' \<Rightarrow> do_calls w' cs)"

definition calls_of :: "listener \<Rightarrow> world \<Rightarrow> (listener \<times> Language) list" where
  "calls_of l w = filter (\<lambda>c. fst c = l) (calls w)"

subsection \<open>Listeners that throw or call back\<close>

text \<open>
  A listener is any function. What matters of it to the service is which calls it makes
  on the service and whether it throws: \<open>code l x\<close> is what the function \<open>l\<close> does when it is
  called with the language \<open>x\<close>, a list of actions performed in order. \<open>CallUnsubscribe m\<close>
  calls the closure that \<^verbatim>\<open>subscribe\<close> returned for \<open>m\<close>.

  \<^verbatim>\<open>notifyListeners\<close> is \<^verbatim>\<open>this.listeners.forEach(listener => listener(this.currentLanguage))\<close>
  with no \<^verbatim>\<open>try\<close>, and \<^verbatim>\<open>setLanguage\<close> has none either, so a throw in a listener ends the
  loop and leaves \<^verbatim>\<open>setLanguage\<close>. The language is read again for each listener.
  \<^verbatim>\<open>Set.prototype.forEach\<close> visits the entries in insertion order, also those added while it
  runs, and skips those deleted before their turn.

  The run is a stack of frames: \<open>Body as\<close> is a function body with the actions \<open>as\<close> left,
  \<open>ForEach ls\<close> a \<^verbatim>\<open>forEach\<close> with the entries \<open>ls\<close> still to visit. Every step takes one unit of
  fuel: listeners can keep the loop running forever (each one subscribing a new one), and
  then no amount of fuel is enough.
\<close>

datatype action =
    CallSetLanguage Language
  | CallSubscribe listener
  | CallUnsubscribe listener
  | ThrowError

type_synonym listener_code = "listener \<Rightarrow> Language \<Rightarrow> action list"

datatype frame = Body "action list" | ForEach "listener list"

datatype outcome =
    is_Done: Done (final: world)
  | is_Threw: Threw (final: world)
  | is_OutOfFuel: OutOfFuel

fun frame_add :: "listener \<Rightarrow> frame \<Rightarrow> frame" where
  "frame_add m (ForEach ls) = ForEach (ls @ [m])"
| "frame_add m (Body as) = Body as"

fun frame_delete :: "listener \<Rightarrow> frame \<Rightarrow> frame" where
  "frame_delete m (ForEach ls) = ForEach (js_set_delete m ls)"
| "frame_delete m (Body as) = Body as"

fun run :: "listener_code \<Rightarrow> nat \<Rightarrow> world \<Rightarrow> frame list \<Rightarrow> outcome" where
  "run code fuel w [] = Done w"
| "run code 0 w (f # fs) = OutOfFuel"
| "run code (Suc n) w (ForEach [] # fs) = run code n w fs"
| "run code (Suc n) w (ForEach (l # ls) # fs) =
     run code n (w\<lparr>calls := calls w @ [(l, currentLanguage (service w))]\<rparr>)
       (Body (code l (currentLanguage (service w))) # ForEach ls # fs)"
| "run code (Suc n) w (Body [] # fs) = run code n w fs"
| "run code (Suc n) w (Body (ThrowError # as) # fs) = Threw w"
| "run code (Suc n) w (Body (CallSubscribe m # as) # fs) =
     run code n (fst (subscribe w m))
       (Body as # (if m \<in> set (listeners (service w)) then fs else map (frame_add m) fs))"
| "run code (Suc n) w (Body (CallUnsubscribe m # as) # fs) =
     run code n (unsubscribe m w) (Body as # map (frame_delete m) fs)"
| "run code (Suc n) w (Body (CallSetLanguage x # as) # fs) =
     (case saveLanguageToStorage (w\<lparr>service := (service w)\<lparr>currentLanguage := x\<rparr>\<rparr>) x of
        Inl e \<Rightarrow> Threw (w\<lparr>service := (service w)\<lparr>currentLanguage := x\<rparr>\<rparr>)
      | Inr w2 \<Rightarrow> run code n w2 (ForEach (listeners (service w2)) # Body as # fs))"

text \<open>A call of \<^verbatim>\<open>setLanguage\<close> by the application is a body with that one call.\<close>

definition setLanguage_calling :: "listener_code \<Rightarrow> nat \<Rightarrow> world \<Rightarrow> Language \<Rightarrow> outcome" where
  "setLanguage_calling code fuel w language = run code fuel w [Body [CallSetLanguage language]]"

fun do_call_calling :: "listener_code \<Rightarrow> nat \<Rightarrow> world \<Rightarrow> call \<Rightarrow> outcome" where
  "do_call_calling code fuel w (SetLanguage x) = setLanguage_calling code fuel w x"
| "do_call_calling code fuel w (Subscribe l) = Done (fst (subscribe w l))"
| "do_call_calling code fuel w (Unsubscribe l) = Done (unsubscribe l w)"
| "do_call_calling code fuel w (LoadTranslations x d) = Done (loadTranslations w x d)"

fun do_calls_calling :: "listener_code \<Rightarrow> nat \<Rightarrow> world \<Rightarrow> call list \<Rightarrow> outcome" where
  "do_calls_calling code fuel w [] = Done w"
| "do_calls_calling code fuel w (c # cs) =
     (case do_call_calling code fuel w c of
        Done w' \<Rightarrow> do_calls_calling code fuel w' cs
      | Threw w' \<Rightarrow> Threw w'
      | OutOfFuel \<Rightarrow> OutOfFuel)"

section \<open>Gallery\<close>

text \<open>
  \<^verbatim>\<open>src/components/Gallery.tsx\<close>. The component's state is the \<^verbatim>\<open>images\<close> prop and the four
  \<^verbatim>\<open>useState\<close> cells the claims are about. \<^verbatim>\<open>selectedIndex\<close> is a JavaScript number, an
  \<open>int\<close> here; \<^verbatim>\<open>Record<string, boolean>\<close> is a map.
\<close>

datatype js_error = ReferenceError | TypeError

record GalleryImage =
  image_id :: string
  filename :: string
  thumbnailUrl :: string
  fullUrl :: string
  captionKey :: string
  alt :: string

record gallery =
  images :: "GalleryImage list"
  selectedIndex :: "int option"
  isLightboxOpen :: bool
  loadingStates :: "string \<rightharpoonup> bool"
  errorStates :: "string \<rightharpoonup> bool"

definition gallery_initial :: "GalleryImage list \<Rightarrow> gallery" where
  "gallery_initial imgs =
     \<lparr>images = imgs, selectedIndex = None, isLightboxOpen = False,
      loadingStates = Map.empty, errorStates = Map.empty\<rparr>"

subsection \<open>A render\<close>

text \<open>
  React calls the function \<^verbatim>\<open>Gallery\<close> for every render. The function's body is a sequence
  of statements. A \<^verbatim>\<open>const\<close> of the body is in scope from the top of the function but is
  initialised only when its declaration is reached; evaluating a read of it before that
  throws \<^verbatim>\<open>ReferenceError\<close>. The build keeps \<^verbatim>\<open>const\<close> as it is.

  A statement is given by the names it reads, whatever the state, while it is evaluated
  in the render, in evaluation order, and the names it initialises. The body of an arrow
  function is not evaluated in the render; the dependency array of a hook is. The imports
  and the two parameters are initialised from the start.
\<close>

type_synonym statement = "string list \<times> string list"

definition Gallery_scope :: "string list" where
  "Gallery_scope =
     [''useState'', ''useEffect'', ''useCallback'', ''getI18nService'', ''LazyImage'', ''styles'',
      ''images'', ''className'']"

text \<open>
  Lines 31-117 of \<^verbatim>\<open>Gallery.tsx\<close>, one entry for each statement: the six declarations of
  lines 31-36; the three \<^verbatim>\<open>useEffect\<close> calls of lines 38-45, 48-67 and 70-76 with their
  dependency arrays \<^verbatim>\<open>[i18nService]\<close>,
  \<^verbatim>\<open>[isLightboxOpen, handleClose, handleNext, handlePrevious]\<close> and \<^verbatim>\<open>[images]\<close>; the
  declarations of the handlers at lines 78, 83, 88, 94, 100, 104 and 109; \<^verbatim>\<open>selectedImage\<close>
  at line 115; and the \<^verbatim>\<open>return\<close> of line 117.
\<close>

definition Gallery_body :: "statement list" where
  "Gallery_body =
     [([''getI18nService''], [''i18nService'']),
      ([''useState'', ''i18nService''], [''language'', ''setLanguage'']),
      ([''useState''], [''selectedIndex'', ''setSelectedIndex'']),
      ([''useState''], [''isLightboxOpen'', ''setIsLightboxOpen'']),
      ([''useState''], [''loadingStates'', ''setLoadingStates'']),
      ([''useState''], [''errorStates'', ''setErrorStates'']),
      ([''useEffect'', ''i18nService''], []),
      ([''useEffect'', ''isLightboxOpen'', ''handleClose'', ''handleNext'', ''handlePrevious''], []),
      ([''useEffect'', ''images''], []),
      ([], [''handleThumbnailClick'']),
      ([''useCallback''], [''handleClose'']),
      ([''useCallback'', ''selectedIndex'', ''images''], [''handleNext'']),
      ([''useCallback'', ''selectedIndex''], [''handlePrevious'']),
      ([], [''handleImageLoad'']),
      ([], [''handleImageError'']),
      ([], [''handleLightboxOverlayClick'']),
      ([''selectedIndex''], [''selectedImage'']),
      ([''styles'', ''className'', ''images'', ''isLightboxOpen''], [])]"

fun first_uninitialised :: "string list \<Rightarrow> statement list \<Rightarrow> string option" where
  "first_uninitialised env [] = None"
| "first_uninitialised env ((rs, ds) # rest) =
     (case find (\<lambda>x. x \<notin> set env) rs of
        Some x \<Rightarrow> Some x
      | None \<Rightarrow> first_uninitialised (env @ ds) rest)"

text \<open>
  A render that runs through shows the state it was called with; one that throws shows
  nothing, and React commits nothing of it.
\<close>

definition Gallery_render :: "gallery \<Rightarrow> js_error + gallery" where
  "Gallery_render g =
     (case first_uninitialised Gallery_scope Gallery_body of
        Some x \<Rightarrow> Inl ReferenceError
      | None \<Rightarrow> Inr g)"

subsection \<open>Effects and handlers\<close>

text \<open>Lines 70-76, the effect that depends on \<^verbatim>\<open>[images]\<close>. It runs after a render is committed.\<close>

definition initialLoadingStates :: "GalleryImage list \<Rightarrow> (string \<rightharpoonup> bool)" where
  "initialLoadingStates imgs = foldl (\<lambda>m image. m(image_id image \<mapsto> True)) Map.empty imgs"

definition images_effect :: "gallery \<Rightarrow> gallery" where
  "images_effect g = g\<lparr>loadingStates := initialLoadingStates (images g)\<rparr>"

text \<open>
  Mounting: the first render, then the effect, whose state change causes a second render.
  The parent rendering the component with another list: a render with the new prop, the
  effect, a render.
\<close>

definition gallery_mount :: "GalleryImage list \<Rightarrow> js_error + gallery" where
  "gallery_mount imgs =
     (case Gallery_render (gallery_initial imgs) of
        Inl e \<Rightarrow> Inl e
      | Inr g \<Rightarrow> Gallery_render (images_effect g))"

definition images_changed :: "gallery \<Rightarrow> GalleryImage list \<Rightarrow> js_error + gallery" where
  "images_changed g imgs =
     (case Gallery_render (g\<lparr>images := imgs\<rparr>) of
        Inl e \<Rightarrow> Inl e
      | Inr g' \<Rightarrow> Gallery_render (images_effect g'))"



definition handleNext :: "gallery \<Rightarrow> gallery" where
  "handleNext g =
     (case selectedIndex g of
        None \<Rightarrow> g
      | Some i \<Rightarrow> if i < int (length (images g)) - 1 then g\<lparr>selectedIndex := Some (i + 1)\<rparr> else g)"

definition handlePrevious :: "gallery \<Rightarrow> gallery" where
  "handlePrevious g =
     (case selectedIndex g of
        None \<Rightarrow> g
      | Some i \<Rightarrow> if i > 0 then g\<lparr>selectedIndex := Some (i - 1)\<rparr> else g)"









section \<open>Lazy loading\<close>

text \<open>
  \<^verbatim>\<open>hooks/useLazyLoad.ts\<close> and \<^verbatim>\<open>components/LazyImage.tsx\<close>. The surroundings of the hook's
  effect are whether \<^verbatim>\<open>ref.current\<close> holds an element, whether \<^verbatim>\<open>window\<close> has the property
  \<^verbatim>\<open>IntersectionObserver\<close>, and whether its value is a constructor. Constructing the observer
  throws \<^verbatim>\<open>ReferenceError\<close> where the name is not defined and \<^verbatim>\<open>TypeError\<close> where its value is
  not a constructor.
\<close>

record lazy_load =
  isIntersecting :: bool
  hasIntersected :: bool
  observing :: bool

record dom =
  element_attached :: bool
  has_IntersectionObserver :: bool
  IntersectionObserver_is_constructor :: bool

definition lazy_load_initial :: lazy_load where
  "lazy_load_initial = \<lparr>isIntersecting = False, hasIntersected = False, observing = False\<rparr>"

definition new_IntersectionObserver :: "dom \<Rightarrow> js_error + unit" where
  "new_IntersectionObserver d =
     (if \<not> has_IntersectionObserver d then Inl ReferenceError
      else if \<not> IntersectionObserver_is_constructor d then Inl TypeError
      else Inr ())"

definition useLazyLoad_effect :: "dom \<Rightarrow> lazy_load \<Rightarrow> js_error + lazy_load" where
  "useLazyLoad_effect d st =
     (if \<not> element_attached d then Inr st
      else if \<not> has_IntersectionObserver d
      then Inr (st\<lparr>isIntersecting := True, hasIntersected := True\<rparr>)
      else (case new_IntersectionObserver d of
              Inl e \<Rightarrow> Inl e
            | Inr u \<Rightarrow> Inr (st\<lparr>observing := True\<rparr>)))"

text \<open>The observer's callback, one flag \<^verbatim>\<open>entry.isIntersecting\<close> per entry.\<close>

definition observer_callback :: "lazy_load \<Rightarrow> bool list \<Rightarrow> lazy_load" where
  "observer_callback st entries =
     foldl (\<lambda>s entry. if entry then s\<lparr>isIntersecting := entry, hasIntersected := True\<rparr>
                       else s\<lparr>isIntersecting := entry\<rparr>) st entries"

record lazy_image =
  lazy :: lazy_load
  isLoading :: bool
  hasError :: bool
  imageSrc :: "string option"

definition lazy_image_initial :: lazy_image where
  "lazy_image_initial =
     \<lparr>lazy = lazy_load_initial, isLoading = True, hasError = False, imageSrc = None\<rparr>"

text \<open>Lines 39-44 of \<^verbatim>\<open>LazyImage.tsx\<close>; \<^verbatim>\<open>!imageSrc\<close> holds for \<^verbatim>\<open>null\<close> and for the empty string.\<close>

definition LazyImage_effect :: "string \<Rightarrow> lazy_image \<Rightarrow> lazy_image" where
  "LazyImage_effect src li =
     (if hasIntersected (lazy li) \<and> (imageSrc li = None \<or> imageSrc li = Some [])
      then li\<lparr>imageSrc := Some src\<rparr> else li)"

text \<open>
  Mounting a \<^verbatim>\<open>LazyImage\<close>: the hook's effect runs once; the state it sets causes a
  re-render, after which the component's own effect sees the new \<^verbatim>\<open>hasIntersected\<close>.
\<close>

definition LazyImage_mount :: "dom \<Rightarrow> string \<Rightarrow> js_error + lazy_image" where
  "LazyImage_mount d src =
     (case useLazyLoad_effect d (lazy lazy_image_initial) of
        Inl e \<Rightarrow> Inl e
      | Inr l \<Rightarrow> Inr (LazyImage_effect src (lazy_image_initial\<lparr>lazy := l\<rparr>)))"

section \<open>Concrete inputs\<close>

text \<open>
  The dictionaries of the unit tests in \<^verbatim>\<open>I18nService.test.ts\<close> (the Hebrew strings
  transliterated), with \<^verbatim>\<open>navigation.articles\<close> missing from the Hebrew dictionary.
\<close>

definition test_en :: TranslationData where
  "test_en =
     [(''navigation'', TData [(''about'', TStr ''About''), (''articles'', TStr ''Articles'')]),
      (''greeting'', TStr ''Hello {{name}}'')]"

definition test_he :: TranslationData where
  "test_he =
     [(''navigation'', TData [(''about'', TStr ''Odot'')]),
      (''greeting'', TStr ''Shalom {{name}}'')]"

definition test_service :: "Language \<Rightarrow> I18nService" where
  "test_service l =
     \<lparr>currentLanguage = l, i18n_translations = \<lparr>he = test_he, en = test_en\<rparr>, listeners = []\<rparr>"

definition empty_storage :: storage where
  "empty_storage = \<lparr>items = Map.empty, get_fails = None, set_fails = None\<rparr>"

definition full_storage :: storage where
  "full_storage = \<lparr>items = Map.empty, get_fails = None, set_fails = Some QuotaExceededError\<rparr>"

definition old_browser :: dom where
  "old_browser =
     \<lparr>element_attached = True, has_IntersectionObserver = False,
      IntersectionObserver_is_constructor = False\<rparr>"

definition test_world :: world where
  "test_world = new_I18nService empty_storage He"

text \<open>Listener 1 throws when it is called; every other function returns at once.\<close>

definition throwing_code :: listener_code where
  "throwing_code l x = (if l = 1 then [ThrowError] else [])"

text \<open>Listener 1, called with English, sets the language to Hebrew.\<close>

definition reentrant_code :: listener_code where
  "reentrant_code l x = (if l = 1 \<and> x = En then [CallSetLanguage He] else [])"

text \<open>A Hebrew dictionary without, and an English one with, an entry named \<^verbatim>\<open>toString\<close>.\<close>

definition toString_service :: I18nService where
  "toString_service =
     \<lparr>currentLanguage = He,
      i18n_translations = \<lparr>he = [(''nav'', TData [])], en = [(''toString'', TStr ''To string'')]\<rparr>,
      listeners = []\<rparr>"

section \<open>Translation lookup\<close>

text \<open>
  The outer loop either follows the whole path in the active dictionary or gives the
  result of following the whole path in the English one. A walk that passes through an
  inherited property never arrives at a string, and a path through the entries of a
  dictionary is followed by the walk as it is.
\<close>

lemma walk_lookup_path:
  "walk e keys v ks =
     (case lookup_path v ks of Some r \<Rightarrow> Some r | None \<Rightarrow> lookup_path (Obj e) keys)"
  by (induction v ks rule: lookup_path.induct) (auto split: option.splits)

lemma builtin_never_string:
  "v = ObjectPrototype \<or> v = Null \<or> (\<exists>n. v = BuiltinFunction n) \<Longrightarrow> lookup_path v ks \<noteq> Some (Str s)"
proof (induction ks arbitrary: v)
  case Nil
  then show ?case by auto
next
  case (Cons k ks)
  show ?case
  proof (cases "get_property v k")
    case None
    then show ?thesis by simp
  next
    case (Some v')
    with Cons.prems have "v' = ObjectPrototype \<or> v' = Null \<or> (\<exists>n. v' = BuiltinFunction n)"
      by (auto split: if_splits)
    from Cons.IH [OF this] Some show ?thesis by simp
  qed
qed

lemma own_path_followed:
  "own_path v ks = Some r \<Longrightarrow> lookup_path (of_tvalue v) ks = Some (of_tvalue r)"
  by (induction v ks rule: own_path.induct) (auto split: option.splits)

lemma string_is_own:
  "lookup_path (of_tvalue v) ks = Some (Str s) \<Longrightarrow> own_path v ks = Some (TStr s)"
proof (induction v ks rule: own_path.induct)
  case (1 v)
  then show ?case by (cases v) auto
next
  case (2 s' k ks)
  then show ?case by simp
next
  case (3 ps k ks)
  show ?case
  proof (cases "map_of ps k")
    case (Some v')
    with 3 show ?thesis by simp
  next
    case None
    with "3.prems" show ?thesis
      using builtin_never_string [of ObjectPrototype ks s]
        builtin_never_string [of "BuiltinFunction k" ks s]
      by (auto split: if_splits)
  qed
qed

lemma get_substitution_plain:
  "CHR ''$'' \<notin> set repl \<Longrightarrow> get_substitution matched preceding following repl = repl"
  by (induction matched preceding following repl rule: get_substitution.induct) auto

lemma interpolate_literal:
  "list_all (\<lambda>p. regexp_of_param (fst p) = RxLiteral) ps \<Longrightarrow>
   interpolate ps v = Returned (replace_all_params ps v)"
  by (induction ps arbitrary: v) (auto simp: replace_all_params_def)

lemma translate_cases:
  "translate svc key params = Returned key
   \<or> (\<exists>v. (own_path (TData (translations_of (i18n_translations svc) (currentLanguage svc))) (split_dot key) = Some (TStr v)
            \<or> own_path (TData (translations_of (i18n_translations svc) (currentLanguage svc))) (split_dot key) = None
              \<and> own_path (TData (en (i18n_translations svc))) (split_dot key) = Some (TStr v))
          \<and> translate svc key params = (case params of None \<Rightarrow> Returned v | Some ps \<Rightarrow> interpolate ps v))"
proof (cases "walk (en (i18n_translations svc)) (split_dot key)
                (Obj (translations_of (i18n_translations svc) (currentLanguage svc))) (split_dot key)")
  case None
  then show ?thesis by (simp add: translate_def)
next
  case (Some r)
  show ?thesis
  proof (cases r)
    case (Str v)
    have t: "translate svc key params = (case params of None \<Rightarrow> Returned v | Some ps \<Rightarrow> interpolate ps v)"
      using Some Str by (simp add: translate_def)
    show ?thesis
    proof (cases "lookup_path (Obj (translations_of (i18n_translations svc) (currentLanguage svc))) (split_dot key)")
      case None
      with Some Str have "lookup_path (Obj (en (i18n_translations svc))) (split_dot key) = Some (Str v)"
        by (simp add: walk_lookup_path)
      then have "own_path (TData (en (i18n_translations svc))) (split_dot key) = Some (TStr v)"
        using string_is_own [of "TData (en (i18n_translations svc))"] by simp
      moreover have "own_path (TData (translations_of (i18n_translations svc) (currentLanguage svc))) (split_dot key) = None"
      proof (rule ccontr)
        assume "own_path (TData (translations_of (i18n_translations svc) (currentLanguage svc))) (split_dot key) \<noteq> None"
        then obtain a where "own_path (TData (translations_of (i18n_translations svc) (currentLanguage svc))) (split_dot key) = Some a"
          by auto
        from own_path_followed [OF this] None show False by simp
      qed
      ultimately show ?thesis using t by blast
    next
      case (Some a)
      with \<open>walk _ _ _ _ = Some r\<close> Str
      have "lookup_path (Obj (translations_of (i18n_translations svc) (currentLanguage svc))) (split_dot key) = Some (Str v)"
        by (simp add: walk_lookup_path)
      then have "own_path (TData (translations_of (i18n_translations svc) (currentLanguage svc))) (split_dot key) = Some (TStr v)"
        using string_is_own [of "TData (translations_of (i18n_translations svc) (currentLanguage svc))"] by simp
      then show ?thesis using t by blast
    qed
  qed (use Some in \<open>simp_all add: translate_def\<close>)
qed

lemma translate_own_hit:
  assumes "own_path (TData (translations_of (i18n_translations svc) (currentLanguage svc))) (split_dot key) = Some (TStr v)"
  shows "translate svc key params = (case params of None \<Rightarrow> Returned v | Some ps \<Rightarrow> interpolate ps v)"
proof -
  from own_path_followed [OF assms]
  have "lookup_path (Obj (translations_of (i18n_translations svc) (currentLanguage svc))) (split_dot key) = Some (Str v)"
    by simp
  then show ?thesis by (simp add: translate_def walk_lookup_path)
qed


lemma absent_not_followed:
  "\<forall>k \<in> set ks. k \<notin> set Object_prototype_names \<Longrightarrow> own_path v ks = None \<Longrightarrow>
   lookup_path (of_tvalue v) ks = None"
  by (induction v ks rule: own_path.induct) (auto split: option.splits)

lemma translate_fallback_ordinary_keys:
  assumes "currentLanguage svc \<noteq> En"
    and "\<forall>k \<in> set (split_dot key). k \<notin> set Object_prototype_names"
    and "own_path (TData (he (i18n_translations svc))) (split_dot key) = None"
    and "own_path (TData (en (i18n_translations svc))) (split_dot key) = Some (TStr v)"
  shows "translate svc key None = Returned v \<and> translate svc key (Some ps) = interpolate ps v"
proof -
  from assms(1) have "currentLanguage svc = He" by (cases "currentLanguage svc") auto
  moreover from absent_not_followed [OF assms(2,3)]
  have "lookup_path (Obj (he (i18n_translations svc))) (split_dot key) = None" by simp
  moreover from own_path_followed [OF assms(4)]
  have "lookup_path (Obj (en (i18n_translations svc))) (split_dot key) = Some (Str v)" by simp
  ultimately show ?thesis by (simp add: translate_def walk_lookup_path)
qed

text \<open>
  Claim C1 says that a key which resolves to a string in the English dictionary and has a
  segment missing from the active dictionary is given its English value. \<^verbatim>\<open>k in value\<close>
  also finds what a dictionary inherits: \<^verbatim>\<open>toString\<close> is missing from the Hebrew dictionary
  and is \<^verbatim>\<open>'To string'\<close> in the English one, but the walk in the Hebrew dictionary finds the
  inherited function, does not fall back, and \<^verbatim>\<open>translate\<close> returns the key. (For a key none
  of whose segments is a property name of \<^verbatim>\<open>Object.prototype\<close> the English value is
  returned, lemma \<open>translate_fallback_ordinary_keys\<close>.)
\<close>

theorem translate_inherited_name_skips_fallback:
  "currentLanguage toString_service \<noteq> En
   \<and> own_path (TData (he (i18n_translations toString_service))) (split_dot ''toString'') = None
   \<and> own_path (TData (en (i18n_translations toString_service))) (split_dot ''toString'') = Some (TStr ''To string'')
   \<and> translate toString_service ''toString'' None = Returned ''toString''"
  by (simp add: toString_service_def translate_def Object_prototype_names_def)

text \<open>
  Claim C2, as amended. \<^verbatim>\<open>translate\<close> returns the key verbatim when its path is absent from
  both the active and the English dictionary, when the path resolves to a nested dictionary
  in the active one, and when it is absent from the active one and resolves to a nested
  dictionary in the English one. Called without parameters it always returns a string,
  which is the key or the string the path resolves to in one of the two dictionaries (so
  it is empty only when the key or that string is empty). Called with parameters whose
  names are not empty, do not start with a digit and hold no regular-expression syntax
  character, it returns a string as well: the key, or the string the path resolves to with
  every parameter replaced in turn. A path that resolves to a string in the active
  dictionary gives that string, with the parameters replaced when there are any.
\<close>

theorem translate_miss_returns_key:
  "(((own_path (TData (translations_of (i18n_translations svc) (currentLanguage svc))) (split_dot key) = None
       \<and> own_path (TData (en (i18n_translations svc))) (split_dot key) = None)
     \<or> (\<exists>d. own_path (TData (translations_of (i18n_translations svc) (currentLanguage svc))) (split_dot key) = Some (TData d))
     \<or> (own_path (TData (translations_of (i18n_translations svc) (currentLanguage svc))) (split_dot key) = None
       \<and> (\<exists>d. own_path (TData (en (i18n_translations svc))) (split_dot key) = Some (TData d))))
     \<longrightarrow> translate svc key params = Returned key)
   \<and> (\<exists>r. translate svc key None = Returned r
        \<and> (r = key
           \<or> own_path (TData (translations_of (i18n_translations svc) (currentLanguage svc))) (split_dot key) = Some (TStr r)
           \<or> own_path (TData (en (i18n_translations svc))) (split_dot key) = Some (TStr r)))
   \<and> (list_all (\<lambda>p. regexp_of_param (fst p) = RxLiteral) ps
        \<longrightarrow> (\<exists>r. translate svc key (Some ps) = Returned r
              \<and> (r = key
                 \<or> (\<exists>u. (own_path (TData (translations_of (i18n_translations svc) (currentLanguage svc))) (split_dot key) = Some (TStr u)
                          \<or> own_path (TData (en (i18n_translations svc))) (split_dot key) = Some (TStr u))
                        \<and> r = replace_all_params ps u))))
   \<and> (own_path (TData (translations_of (i18n_translations svc) (currentLanguage svc))) (split_dot key) = Some (TStr v)
        \<longrightarrow> translate svc key None = Returned v
            \<and> (list_all (\<lambda>p. regexp_of_param (fst p) = RxLiteral) ps
                 \<longrightarrow> translate svc key (Some ps) = Returned (replace_all_params ps v)))"
proof (intro conjI impI)
  assume "((own_path (TData (translations_of (i18n_translations svc) (currentLanguage svc))) (split_dot key) = None
       \<and> own_path (TData (en (i18n_translations svc))) (split_dot key) = None)
     \<or> (\<exists>d. own_path (TData (translations_of (i18n_translations svc) (currentLanguage svc))) (split_dot key) = Some (TData d))
     \<or> (own_path (TData (translations_of (i18n_translations svc) (currentLanguage svc))) (split_dot key) = None
       \<and> (\<exists>d. own_path (TData (en (i18n_translations svc))) (split_dot key) = Some (TData d))))"
  with translate_cases [of svc key params] show "translate svc key params = Returned key"
    by auto
next
  from translate_cases [of svc key None]
  show "\<exists>r. translate svc key None = Returned r
        \<and> (r = key
           \<or> own_path (TData (translations_of (i18n_translations svc) (currentLanguage svc))) (split_dot key) = Some (TStr r)
           \<or> own_path (TData (en (i18n_translations svc))) (split_dot key) = Some (TStr r))"
    by auto
next
  assume "list_all (\<lambda>p. regexp_of_param (fst p) = RxLiteral) ps"
  from interpolate_literal [OF this] translate_cases [of svc key "Some ps"]
  show "\<exists>r. translate svc key (Some ps) = Returned r
              \<and> (r = key
                 \<or> (\<exists>u. (own_path (TData (translations_of (i18n_translations svc) (currentLanguage svc))) (split_dot key) = Some (TStr u)
                          \<or> own_path (TData (en (i18n_translations svc))) (split_dot key) = Some (TStr u))
                        \<and> r = replace_all_params ps u))"
    by auto
next
  assume "own_path (TData (translations_of (i18n_translations svc) (currentLanguage svc))) (split_dot key) = Some (TStr v)"
  from translate_own_hit [OF this, of None] show "translate svc key None = Returned v"
    by simp
next
  assume "own_path (TData (translations_of (i18n_translations svc) (currentLanguage svc))) (split_dot key) = Some (TStr v)"
    and "list_all (\<lambda>p. regexp_of_param (fst p) = RxLiteral) ps"
  from translate_own_hit [OF this(1), of "Some ps"] interpolate_literal [OF this(2)]
  show "translate svc key (Some ps) = Returned (replace_all_params ps v)"
    by simp
qed

theorem translate_miss_returns_key_witness:
  "own_path (TData (translations_of (i18n_translations (test_service He)) (currentLanguage (test_service He))))
     (split_dot ''nonexistent.key'') = None
   \<and> own_path (TData (en (i18n_translations (test_service He)))) (split_dot ''nonexistent.key'') = None
   \<and> list_all (\<lambda>p. regexp_of_param (fst p) = RxLiteral) [(''name'', ''Ofra'')]
   \<and> translate (test_service He) ''nonexistent.key'' (Some [(''name'', ''Ofra'')]) = Returned ''nonexistent.key''
   \<and> own_path (TData (translations_of (i18n_translations (test_service He)) (currentLanguage (test_service He))))
       (split_dot ''greeting'') = Some (TStr ''Shalom {{name}}'')
   \<and> translate (test_service He) ''greeting'' None = Returned ''Shalom {{name}}''
   \<and> translate (test_service He) ''greeting'' (Some [(''name'', ''Ofra'')]) = Returned ''Shalom Ofra''"
proof -
  have h1: "own_path (TData (translations_of (i18n_translations (test_service He)) (currentLanguage (test_service He))))
     (split_dot ''nonexistent.key'') = None"
    by (simp add: test_service_def test_he_def)
  have h2: "own_path (TData (en (i18n_translations (test_service He)))) (split_dot ''nonexistent.key'') = None"
    by (simp add: test_service_def test_en_def)
  have h3: "list_all (\<lambda>p. regexp_of_param (fst p) = RxLiteral) [(''name'', ''Ofra'')]"
    by (simp add: regexp_of_param_def syntax_char_def digit_char_def)
  have h4: "own_path (TData (translations_of (i18n_translations (test_service He)) (currentLanguage (test_service He))))
       (split_dot ''greeting'') = Some (TStr ''Shalom {{name}}'')"
    by (simp add: test_service_def test_he_def)
  have r: "replace_all_params [(''name'', ''Ofra'')] ''Shalom {{name}}'' = ''Shalom Ofra''"
    by (simp add: replace_all_params_def placeholder_def replace_placeholder.simps)
  from translate_miss_returns_key [of "test_service He" "''nonexistent.key''"
      "Some [(''name'', ''Ofra'')]" "[(''name'', ''Ofra'')]"] h1 h2
  have c1: "translate (test_service He) ''nonexistent.key'' (Some [(''name'', ''Ofra'')]) = Returned ''nonexistent.key''"
    by blast
  from translate_miss_returns_key [of "test_service He" "''greeting''" None
      "[(''name'', ''Ofra'')]" "''Shalom {{name}}''"] h3 h4 r
  have c2: "translate (test_service He) ''greeting'' None = Returned ''Shalom {{name}}''"
    and c3: "translate (test_service He) ''greeting'' (Some [(''name'', ''Ofra'')]) = Returned ''Shalom Ofra''"
    by simp_all
  from h1 h2 h3 h4 c1 c2 c3 show ?thesis by blast
qed

text \<open>
  The claim C2 as stated also says that \<^verbatim>\<open>translate\<close> never returns an empty result and
  never throws. A dictionary entry may be the empty string, and it is returned as it is;
  and a parameter named \<^verbatim>\<open>(\<close> makes \<^verbatim>\<open>new RegExp\<close> throw.
\<close>

theorem translate_empty_or_throws_counterexample:
  "translate \<lparr>currentLanguage = En,
              i18n_translations = \<lparr>he = [], en = [(''title'', TStr [])]\<rparr>,
              listeners = []\<rparr> ''title'' None = Returned []
   \<and> translate (test_service En) ''greeting'' (Some [(''('', ''x'')]) = ThrewSyntaxError"
  by (simp add: translate_def test_service_def test_en_def regexp_of_param_def syntax_char_def
      digit_char_def)

text \<open>
  Claim C3 says that every \<^verbatim>\<open>{{paramName}}\<close> is replaced with the parameter's value. The
  value is handed to \<^verbatim>\<open>replace\<close> as a replacement pattern, so a value that holds a dollar
  sequence is not inserted as it is: with the test dictionary's \<^verbatim>\<open>Hello {{name}}\<close> and the
  value \<^verbatim>\<open>A$$AP\<close> the result holds \<^verbatim>\<open>A$AP\<close>.
\<close>

theorem translate_dollar_in_param_value:
  "translate (test_service En) ''greeting'' (Some [(''name'', ''A$$AP'')]) = Returned ''Hello A$AP''"
  by (simp add: translate_def test_service_def test_en_def regexp_of_param_def syntax_char_def
      digit_char_def placeholder_def replace_placeholder.simps)

section \<open>Language changes and listeners\<close>

text \<open>
  With listeners that return normally \<^verbatim>\<open>setLanguage\<close> always returns normally; the world it
  returns has the new language, the store written or a warning logged, and one invocation
  appended for each listener. When the registered listeners have empty bodies, a run with
  enough fuel ends in that same world.
\<close>

lemma setLanguage_Inr:
  "setLanguage w x =
     Inr (w\<lparr>service := (service w)\<lparr>currentLanguage := x\<rparr>,
            localStorage := (case set_fails (localStorage w) of
                               None \<Rightarrow> (localStorage w)\<lparr>items := (items (localStorage w))(STORAGE_KEY \<mapsto> language_string x)\<rparr>
                             | Some e \<Rightarrow> localStorage w),
            console := (case set_fails (localStorage w) of
                          None \<Rightarrow> console w
                        | Some e \<Rightarrow> console w @ [''Failed to save language to localStorage:'']),
            calls := calls w @ map (\<lambda>l. (l, x)) (listeners (service w))\<rparr>)"
  by (cases "set_fails (localStorage w)")
     (simp_all add: setLanguage_def saveLanguageToStorage_def setItem_def notifyListeners_def Let_def)

lemma filter_notified:
  "distinct ls \<Longrightarrow> f \<in> set ls \<Longrightarrow> filter (\<lambda>c. fst c = f) (map (\<lambda>l. (l, x)) ls) = [(f, x)]"
  by (induction ls) (auto simp: filter_empty_conv)

lemma filter_not_notified:
  "f \<notin> set ls \<Longrightarrow> filter (\<lambda>c. fst c = f) (map (\<lambda>l. (l, x)) ls) = []"
  by (induction ls) auto

lemma distinct_js_set_add: "distinct xs \<Longrightarrow> distinct (js_set_add x xs)"
  by (simp add: js_set_add_def)

lemma distinct_js_set_delete: "distinct xs \<Longrightarrow> distinct (js_set_delete x xs)"
  by (simp add: js_set_delete_def)

lemma set_js_set_add: "set (js_set_add x xs) = insert x (set xs)"
  by (auto simp: js_set_add_def)

lemma set_js_set_delete: "set (js_set_delete x xs) = set xs - {x}"
  by (auto simp: js_set_delete_def)

lemma do_call_Inr:
  "\<exists>w'. do_call w c = Inr w'
     \<and> listeners (service w') =
         (case c of Subscribe l \<Rightarrow> js_set_add l (listeners (service w))
                  | Unsubscribe l \<Rightarrow> js_set_delete l (listeners (service w))
                  | SetLanguage x \<Rightarrow> listeners (service w)
                  | LoadTranslations x d \<Rightarrow> listeners (service w))
     \<and> calls w' =
         (case c of SetLanguage x \<Rightarrow> calls w @ map (\<lambda>l. (l, x)) (listeners (service w))
                  | Subscribe l \<Rightarrow> calls w
                  | Unsubscribe l \<Rightarrow> calls w
                  | LoadTranslations x d \<Rightarrow> calls w)"
  by (cases c) (simp_all add: setLanguage_Inr subscribe_def unsubscribe_def loadTranslations_def)

lemma do_calls_keeps_listener:
  "distinct (listeners (service w)) \<Longrightarrow> f \<in> set (listeners (service w)) \<Longrightarrow>
   Unsubscribe f \<notin> set cs \<Longrightarrow>
   \<exists>w2. do_calls w cs = Inr w2 \<and> distinct (listeners (service w2)) \<and> f \<in> set (listeners (service w2))"
proof (induction cs arbitrary: w)
  case Nil
  then show ?case by simp
next
  case (Cons c cs)
  from do_call_Inr [of w c] obtain w' where
    w': "do_call w c = Inr w'"
    and ls: "listeners (service w') =
         (case c of Subscribe l \<Rightarrow> js_set_add l (listeners (service w))
                  | Unsubscribe l \<Rightarrow> js_set_delete l (listeners (service w))
                  | SetLanguage x \<Rightarrow> listeners (service w)
                  | LoadTranslations x d \<Rightarrow> listeners (service w))"
    by blast
  from Cons.prems ls have "distinct (listeners (service w'))" and "f \<in> set (listeners (service w'))"
    by (cases c; simp add: distinct_js_set_add distinct_js_set_delete set_js_set_add set_js_set_delete)+
  moreover from Cons.prems have "Unsubscribe f \<notin> set cs" by simp
  ultimately obtain w2 where "do_calls w' cs = Inr w2" "distinct (listeners (service w2))"
    "f \<in> set (listeners (service w2))"
    using Cons.IH by blast
  with w' show ?case by simp
qed

lemma do_calls_no_listener:
  "f \<notin> set (listeners (service w)) \<Longrightarrow> Subscribe f \<notin> set cs \<Longrightarrow>
   \<exists>w2. do_calls w cs = Inr w2 \<and> f \<notin> set (listeners (service w2)) \<and> calls_of f w2 = calls_of f w"
proof (induction cs arbitrary: w)
  case Nil
  then show ?case by simp
next
  case (Cons c cs)
  from do_call_Inr [of w c] obtain w' where
    w': "do_call w c = Inr w'"
    and ls: "listeners (service w') =
         (case c of Subscribe l \<Rightarrow> js_set_add l (listeners (service w))
                  | Unsubscribe l \<Rightarrow> js_set_delete l (listeners (service w))
                  | SetLanguage x \<Rightarrow> listeners (service w)
                  | LoadTranslations x d \<Rightarrow> listeners (service w))"
    and cl: "calls w' =
         (case c of SetLanguage x \<Rightarrow> calls w @ map (\<lambda>l. (l, x)) (listeners (service w))
                  | Subscribe l \<Rightarrow> calls w
                  | Unsubscribe l \<Rightarrow> calls w
                  | LoadTranslations x d \<Rightarrow> calls w)"
    by blast
  from Cons.prems ls have nl: "f \<notin> set (listeners (service w'))"
    by (cases c) (auto simp: set_js_set_add set_js_set_delete)
  from Cons.prems cl have same: "calls_of f w' = calls_of f w"
    by (cases c) (simp_all add: calls_of_def filter_not_notified)
  from Cons.prems have "Subscribe f \<notin> set cs" by simp
  with nl obtain w2 where "do_calls w' cs = Inr w2" "f \<notin> set (listeners (service w2))"
    "calls_of f w2 = calls_of f w'"
    using Cons.IH by blast
  with w' same show ?case by simp
qed

lemma do_calls_listeners_bound:
  "do_calls w cs = Inr w2 \<Longrightarrow>
   set (listeners (service w2)) \<subseteq> set (listeners (service w)) \<union> {l. Subscribe l \<in> set cs}
   \<and> length (listeners (service w2)) \<le> length (listeners (service w)) + length cs"
proof (induction cs arbitrary: w)
  case Nil
  then show ?case by simp
next
  case (Cons c cs)
  from do_call_Inr [of w c] obtain w' where
    w': "do_call w c = Inr w'"
    and ls: "listeners (service w') =
         (case c of Subscribe l \<Rightarrow> js_set_add l (listeners (service w))
                  | Unsubscribe l \<Rightarrow> js_set_delete l (listeners (service w))
                  | SetLanguage x \<Rightarrow> listeners (service w)
                  | LoadTranslations x d \<Rightarrow> listeners (service w))"
    by blast
  from ls have s: "set (listeners (service w')) \<subseteq> set (listeners (service w)) \<union> {l. Subscribe l \<in> set (c # cs)}"
    and n: "length (listeners (service w')) \<le> length (listeners (service w)) + 1"
    by (cases c; auto simp: set_js_set_add set_js_set_delete js_set_add_def js_set_delete_def
          intro: le_trans [OF length_filter_le])+
  from Cons.prems w' have "do_calls w' cs = Inr w2" by simp
  from Cons.IH [OF this] s n show ?case by auto
qed

lemma run_forEach_returning:
  "\<forall>l \<in> set ls. code l (currentLanguage (service w)) = [] \<Longrightarrow>
   run code (2 * length ls + k) w (ForEach ls # fs) =
   run code k (w\<lparr>calls := calls w @ map (\<lambda>l. (l, currentLanguage (service w))) ls\<rparr>) (ForEach [] # fs)"
proof (induction ls arbitrary: w)
  case Nil
  then show ?case by simp
next
  case (Cons l ls)
  have "\<forall>m \<in> set ls. code m (currentLanguage (service (w\<lparr>calls := calls w @ [(l, currentLanguage (service w))]\<rparr>))) = []"
    using Cons.prems by simp
  from Cons.IH [OF this] Cons.prems show ?case by simp
qed

lemma setLanguage_calling_returning:
  assumes "\<forall>l \<in> set (listeners (service w)). code l x = []"
    and "2 * length (listeners (service w)) + 3 \<le> fuel"
    and "setLanguage w x = Inr w'"
  shows "setLanguage_calling code fuel w x = Done w'"
proof -
  from assms(2) obtain k where "fuel = 2 * length (listeners (service w)) + 3 + k"
    by (auto simp: le_iff_add)
  then have fuel: "fuel = Suc (2 * length (listeners (service w)) + Suc (Suc k))"
    by simp
  obtain w2 where w2: "saveLanguageToStorage (w\<lparr>service := (service w)\<lparr>currentLanguage := x\<rparr>\<rparr>) x = Inr w2"
    and l2: "listeners (service w2) = listeners (service w)"
    and c2: "currentLanguage (service w2) = x"
    by (cases "set_fails (localStorage w)") (auto simp: saveLanguageToStorage_def setItem_def)
  from assms(3) w2 have w': "w' = w2\<lparr>calls := calls w2 @ map (\<lambda>l. (l, currentLanguage (service w2))) (listeners (service w2))\<rparr>"
    by (simp add: setLanguage_def notifyListeners_def Let_def)
  have "\<forall>l \<in> set (listeners (service w2)). code l (currentLanguage (service w2)) = []"
    using assms(1) l2 c2 by simp
  then have "run code (2 * length (listeners (service w2)) + Suc (Suc k)) w2
               (ForEach (listeners (service w2)) # [Body []]) =
             run code (Suc (Suc k))
               (w2\<lparr>calls := calls w2 @ map (\<lambda>l. (l, currentLanguage (service w2))) (listeners (service w2))\<rparr>)
               (ForEach [] # [Body []])"
    by (rule run_forEach_returning)
  with w2 l2 w' show ?thesis by (simp add: setLanguage_calling_def fuel)
qed

lemma do_calls_calling_returning:
  assumes "\<forall>l x. l \<in> set (listeners (service w)) \<union> {l. Subscribe l \<in> set cs} \<longrightarrow> code l x = []"
    and "2 * (length (listeners (service w)) + length cs) + 3 \<le> fuel"
    and "do_calls w cs = Inr w2"
  shows "do_calls_calling code fuel w cs = Done w2"
  using assms
proof (induction cs arbitrary: w)
  case Nil
  then show ?case by simp
next
  case (Cons c cs)
  from do_call_Inr [of w c] obtain w' where w': "do_call w c = Inr w'" by blast
  from do_calls_listeners_bound [of w "[c]" w'] w'
  have s: "set (listeners (service w')) \<subseteq> set (listeners (service w)) \<union> {l. Subscribe l \<in> set [c]}"
    and n: "length (listeners (service w')) \<le> length (listeners (service w)) + 1"
    by simp_all
  have step: "do_call_calling code fuel w c = Done w'"
  proof (cases c)
    case (SetLanguage x)
    with w' have "setLanguage w x = Inr w'" by simp
    moreover have "\<forall>l \<in> set (listeners (service w)). code l x = []"
      using Cons.prems(1) by simp
    moreover have "2 * length (listeners (service w)) + 3 \<le> fuel"
      using Cons.prems(2) by simp
    ultimately show ?thesis using SetLanguage by (simp add: setLanguage_calling_returning)
  qed (use w' in \<open>simp_all add: subscribe_def\<close>)
  have "\<forall>l x. l \<in> set (listeners (service w')) \<union> {l. Subscribe l \<in> set cs} \<longrightarrow> code l x = []"
    using Cons.prems(1) s by auto
  moreover have "2 * (length (listeners (service w')) + length cs) + 3 \<le> fuel"
    using Cons.prems(2) n by simp
  moreover have "do_calls w' cs = Inr w2"
    using Cons.prems(3) w' by simp
  ultimately have "do_calls_calling code fuel w' cs = Done w2"
    by (rule Cons.IH)
  with step show ?case by simp
qed

lemma two_listeners:
  "listeners (service (fst (subscribe (fst (subscribe test_world 1)) 2))) = [1, 2]
   \<and> calls (fst (subscribe (fst (subscribe test_world 1)) 2)) = []
   \<and> set_fails (localStorage (fst (subscribe (fst (subscribe test_world 1)) 2))) = None"
  by (simp add: test_world_def new_I18nService_def loadLanguageFromStorage_def getItem_def
      empty_storage_def subscribe_def js_set_add_def)

text \<open>
  Claim C4, as amended. Let every listener that is registered, or that the calls in
  question subscribe, return normally without calling the service. After \<^verbatim>\<open>subscribe(f)\<close>,
  and any further calls that do not unsubscribe \<open>f\<close>, a \<^verbatim>\<open>setLanguage(x)\<close> returns with
  exactly one new invocation of \<open>f\<close>, with \<open>x\<close>. After the returned unsubscribe function has
  been called, no sequence of calls that does not subscribe \<open>f\<close> again adds an invocation
  of \<open>f\<close>. Calling the unsubscribe function a second time changes nothing. That a call
  returns is shown as: the run ends in \<open>Done\<close> for every amount of fuel from the stated
  bound on.
\<close>

theorem returning_listeners_notified_once:
  assumes "distinct (listeners (service w))"
  shows "(Unsubscribe f \<notin> set cs
          \<and> (\<forall>l x. l \<in> set (listeners (service w)) \<union> {f} \<union> {l. Subscribe l \<in> set cs} \<longrightarrow> code l x = [])
          \<and> 2 * (length (listeners (service w)) + length cs) + 5 \<le> fuel
          \<longrightarrow> (\<exists>w2 w3. do_calls_calling code fuel (fst (subscribe w f)) cs = Done w2
                 \<and> setLanguage_calling code fuel w2 x = Done w3
                 \<and> calls_of f w3 = calls_of f w2 @ [(f, x)]))
       \<and> (Subscribe f \<notin> set cs'
          \<and> (\<forall>l x. l \<in> set (listeners (service w')) \<union> {l. Subscribe l \<in> set cs'} \<longrightarrow> code l x = [])
          \<and> 2 * (length (listeners (service w')) + length cs') + 3 \<le> fuel
          \<longrightarrow> (\<exists>w2. do_calls_calling code fuel (snd (subscribe w f) w') cs' = Done w2
                 \<and> calls_of f w2 = calls_of f w'))
       \<and> snd (subscribe w f) (snd (subscribe w f) w') = snd (subscribe w f) w'"
proof (intro conjI impI)
  assume a: "Unsubscribe f \<notin> set cs
          \<and> (\<forall>l x. l \<in> set (listeners (service w)) \<union> {f} \<union> {l. Subscribe l \<in> set cs} \<longrightarrow> code l x = [])
          \<and> 2 * (length (listeners (service w)) + length cs) + 5 \<le> fuel"
  let ?w1 = "fst (subscribe w f)"
  from assms have d1: "distinct (listeners (service ?w1))"
    and f1: "f \<in> set (listeners (service ?w1))"
    and s1: "set (listeners (service ?w1)) = insert f (set (listeners (service w)))"
    and n1: "length (listeners (service ?w1)) \<le> length (listeners (service w)) + 1"
    by (auto simp: subscribe_def js_set_add_def)
  from a have nu: "Unsubscribe f \<notin> set cs" by simp
  from do_calls_keeps_listener [OF d1 f1 nu] obtain w2 where
    w2: "do_calls ?w1 cs = Inr w2" "distinct (listeners (service w2))" "f \<in> set (listeners (service w2))"
    by blast
  from do_calls_listeners_bound [OF w2(1)]
  have s2: "set (listeners (service w2)) \<subseteq> set (listeners (service ?w1)) \<union> {l. Subscribe l \<in> set cs}"
    and n2: "length (listeners (service w2)) \<le> length (listeners (service ?w1)) + length cs"
    by simp_all
  have "\<forall>l x. l \<in> set (listeners (service ?w1)) \<union> {l. Subscribe l \<in> set cs} \<longrightarrow> code l x = []"
    using a s1 by auto
  moreover have "2 * (length (listeners (service ?w1)) + length cs) + 3 \<le> fuel"
    using a n1 by simp
  ultimately have r1: "do_calls_calling code fuel ?w1 cs = Done w2"
    using w2(1) by (rule do_calls_calling_returning)
  obtain w3 where w3: "setLanguage w2 x = Inr w3"
    by (simp add: setLanguage_Inr)
  have "\<forall>l \<in> set (listeners (service w2)). code l x = []"
    using a s1 s2 by auto
  moreover have "2 * length (listeners (service w2)) + 3 \<le> fuel"
    using a n1 n2 by simp
  ultimately have r2: "setLanguage_calling code fuel w2 x = Done w3"
    using w3 by (rule setLanguage_calling_returning)
  from w3 w2(2,3) have "calls_of f w3 = calls_of f w2 @ [(f, x)]"
    by (auto simp: setLanguage_Inr calls_of_def filter_notified)
  with r1 r2 show "\<exists>w2 w3. do_calls_calling code fuel (fst (subscribe w f)) cs = Done w2
                 \<and> setLanguage_calling code fuel w2 x = Done w3
                 \<and> calls_of f w3 = calls_of f w2 @ [(f, x)]"
    by blast
next
  assume a: "Subscribe f \<notin> set cs'
          \<and> (\<forall>l x. l \<in> set (listeners (service w')) \<union> {l. Subscribe l \<in> set cs'} \<longrightarrow> code l x = [])
          \<and> 2 * (length (listeners (service w')) + length cs') + 3 \<le> fuel"
  let ?u = "snd (subscribe w f) w'"
  have nf: "f \<notin> set (listeners (service ?u))"
    and su: "set (listeners (service ?u)) \<subseteq> set (listeners (service w'))"
    and nu: "length (listeners (service ?u)) \<le> length (listeners (service w'))"
    and cu: "calls_of f ?u = calls_of f w'"
    by (auto simp: subscribe_def unsubscribe_def set_js_set_delete js_set_delete_def calls_of_def)
  from a have ns: "Subscribe f \<notin> set cs'" by simp
  from do_calls_no_listener [OF nf ns] obtain w2 where
    w2: "do_calls ?u cs' = Inr w2" "calls_of f w2 = calls_of f ?u"
    by blast
  have "\<forall>l x. l \<in> set (listeners (service ?u)) \<union> {l. Subscribe l \<in> set cs'} \<longrightarrow> code l x = []"
    using a su by auto
  moreover have "2 * (length (listeners (service ?u)) + length cs') + 3 \<le> fuel"
    using a nu by simp
  ultimately have "do_calls_calling code fuel ?u cs' = Done w2"
    using w2(1) by (rule do_calls_calling_returning)
  with w2(2) cu show "\<exists>w2. do_calls_calling code fuel (snd (subscribe w f) w') cs' = Done w2
                 \<and> calls_of f w2 = calls_of f w'"
    by auto
next
  show "snd (subscribe w f) (snd (subscribe w f) w') = snd (subscribe w f) w'"
    by (simp add: subscribe_def unsubscribe_def js_set_delete_def)
qed

theorem returning_listeners_notified_once_witness:
  "distinct (listeners (service test_world))
   \<and> Unsubscribe 3 \<notin> set [Subscribe 2, SetLanguage He]
   \<and> Subscribe 3 \<notin> set [SetLanguage En, Subscribe 2, SetLanguage He]
   \<and> throwing_code 3 En = [] \<and> throwing_code 2 En = []
   \<and> (\<exists>w2 w3. do_calls_calling throwing_code 20 (fst (subscribe test_world 3)) [Subscribe 2, SetLanguage He] = Done w2
         \<and> setLanguage_calling throwing_code 20 w2 En = Done w3
         \<and> calls_of 3 w3 = calls_of 3 w2 @ [(3, En)])
   \<and> (\<exists>w2. do_calls_calling throwing_code 20 (snd (subscribe test_world 3) (fst (subscribe test_world 3)))
               [SetLanguage En, Subscribe 2, SetLanguage He] = Done w2
         \<and> calls_of 3 w2 = calls_of 3 (fst (subscribe test_world 3)))"
proof -
  have l0: "listeners (service test_world) = []"
    by (simp add: test_world_def new_I18nService_def loadLanguageFromStorage_def getItem_def
        empty_storage_def)
  then have h1: "distinct (listeners (service test_world))"
    by simp
  have l1: "listeners (service (fst (subscribe test_world 3))) = [3]"
    using l0 by (simp add: subscribe_def js_set_add_def)
  have h2: "Unsubscribe 3 \<notin> set [Subscribe 2, SetLanguage He]"
    by simp
  have h3: "Subscribe 3 \<notin> set [SetLanguage En, Subscribe 2, SetLanguage He]"
    by simp
  have h4: "throwing_code 3 En = []" and h5: "throwing_code 2 En = []"
    by (simp_all add: throwing_code_def)
  have o1: "\<forall>l x. l \<in> set (listeners (service test_world)) \<union> {3}
                     \<union> {l. Subscribe l \<in> set [Subscribe 2, SetLanguage He]}
                 \<longrightarrow> throwing_code l x = []"
    using l0 by (auto simp: throwing_code_def)
  have o2: "\<forall>l x. l \<in> set (listeners (service (fst (subscribe test_world 3))))
                     \<union> {l. Subscribe l \<in> set [SetLanguage En, Subscribe 2, SetLanguage He]}
                 \<longrightarrow> throwing_code l x = []"
    using l1 by (auto simp: throwing_code_def)
  have f1: "2 * (length (listeners (service test_world)) + length [Subscribe 2, SetLanguage He]) + 5 \<le> (20::nat)"
    using l0 by simp
  have f2: "2 * (length (listeners (service (fst (subscribe test_world 3))))
                 + length [SetLanguage En, Subscribe 2, SetLanguage He]) + 3 \<le> (20::nat)"
    using l1 by simp
  note t = returning_listeners_notified_once [OF h1, of 3 "[Subscribe 2, SetLanguage He]" throwing_code 20 En
      "[SetLanguage En, Subscribe 2, SetLanguage He]" "fst (subscribe test_world 3)"]
  from t h2 o1 f1
  have c1: "\<exists>w2 w3. do_calls_calling throwing_code 20 (fst (subscribe test_world 3)) [Subscribe 2, SetLanguage He] = Done w2
         \<and> setLanguage_calling throwing_code 20 w2 En = Done w3
         \<and> calls_of 3 w3 = calls_of 3 w2 @ [(3, En)]"
    by blast
  from t h3 o2 f2
  have c2: "\<exists>w2. do_calls_calling throwing_code 20 (snd (subscribe test_world 3) (fst (subscribe test_world 3)))
               [SetLanguage En, Subscribe 2, SetLanguage He] = Done w2
         \<and> calls_of 3 w2 = calls_of 3 (fst (subscribe test_world 3))"
    by blast
  from h1 h2 h3 h4 h5 c1 c2 show ?thesis by blast
qed

text \<open>
  The claim C4 as stated is about every callback. With listener 1 throwing and listener 2
  subscribed after it, \<^verbatim>\<open>setLanguage('en')\<close> calls listener 1 and throws; listener 2 is not
  invoked.
\<close>

theorem throwing_listener_counterexample:
  "listeners (service (fst (subscribe (fst (subscribe test_world 1)) 2))) = [1, 2]
   \<and> is_Threw (setLanguage_calling throwing_code 10 (fst (subscribe (fst (subscribe test_world 1)) 2)) En)
   \<and> calls (final (setLanguage_calling throwing_code 10 (fst (subscribe (fst (subscribe test_world 1)) 2)) En))
       = [(1, En)]
   \<and> calls_of 2 (final (setLanguage_calling throwing_code 10 (fst (subscribe (fst (subscribe test_world 1)) 2)) En))
       = []"
  using two_listeners
  by (simp add: setLanguage_calling_def eval_nat_numeral saveLanguageToStorage_def setItem_def
      throwing_code_def calls_of_def)

text \<open>
  A listener that calls \<^verbatim>\<open>setLanguage\<close> itself: listener 2 is invoked twice, both times with
  the language of the inner call, and never with English.
\<close>

lemma reentrant_listener_example:
  "is_Done (setLanguage_calling reentrant_code 20 (fst (subscribe (fst (subscribe test_world 1)) 2)) En)
   \<and> calls (final (setLanguage_calling reentrant_code 20 (fst (subscribe (fst (subscribe test_world 1)) 2)) En))
       = [(1, En), (1, He), (2, He), (2, He)]"
  using two_listeners
  by (simp add: setLanguage_calling_def eval_nat_numeral saveLanguageToStorage_def setItem_def
      reentrant_code_def)

text \<open>
  Claim C5. When \<^verbatim>\<open>localStorage.setItem\<close> throws, \<^verbatim>\<open>setLanguage\<close> still returns normally:
  the current language is the requested one, every listener has been invoked with it, the
  store is unchanged and a warning is on the console.
\<close>

theorem setLanguage_survives_storage_failure:
  assumes "set_fails (localStorage w) = Some e"
  shows "\<exists>w'. setLanguage w x = Inr w'
           \<and> currentLanguage (service w') = x
           \<and> calls w' = calls w @ map (\<lambda>l. (l, x)) (listeners (service w))
           \<and> localStorage w' = localStorage w
           \<and> console w' = console w @ [''Failed to save language to localStorage:'']"
  using assms by (simp add: setLanguage_Inr)

theorem setLanguage_survives_storage_failure_witness:
  "set_fails (localStorage (fst (subscribe (new_I18nService full_storage He) 1))) = Some QuotaExceededError
   \<and> (\<exists>w'. setLanguage (fst (subscribe (new_I18nService full_storage He) 1)) En = Inr w'
           \<and> currentLanguage (service w') = En
           \<and> calls w' = [(1, En)])"
proof -
  have h: "set_fails (localStorage (fst (subscribe (new_I18nService full_storage He) 1))) = Some QuotaExceededError"
    by (simp add: subscribe_def new_I18nService_def loadLanguageFromStorage_def getItem_def
        full_storage_def)
  have l: "listeners (service (fst (subscribe (new_I18nService full_storage He) 1))) = [1]"
    and c: "calls (fst (subscribe (new_I18nService full_storage He) 1)) = []"
    by (simp_all add: subscribe_def new_I18nService_def loadLanguageFromStorage_def getItem_def
        full_storage_def js_set_add_def)
  from setLanguage_survives_storage_failure [OF h, of En] l c
  have "\<exists>w'. setLanguage (fst (subscribe (new_I18nService full_storage He) 1)) En = Inr w'
           \<and> currentLanguage (service w') = En
           \<and> calls w' = [(1, En)]"
    by auto
  with h show ?thesis by blast
qed

text \<open>
  Claim C10. Subscribing the same listener a second time leaves the service as it was
  after the first time; a language change then invokes the listener once; and the
  unsubscribe function returned by either call removes the listener.
\<close>

theorem subscribe_same_listener_twice:
  assumes "distinct (listeners (service w))"
  shows "fst (subscribe (fst (subscribe w f)) f) = fst (subscribe w f)
       \<and> (\<exists>w3. setLanguage (fst (subscribe (fst (subscribe w f)) f)) x = Inr w3
             \<and> calls_of f w3 = calls_of f w @ [(f, x)])
       \<and> f \<notin> set (listeners (service (snd (subscribe w f) (fst (subscribe (fst (subscribe w f)) f)))))
       \<and> f \<notin> set (listeners (service (snd (subscribe (fst (subscribe w f)) f)
                                          (fst (subscribe (fst (subscribe w f)) f)))))"
proof (intro conjI)
  show twice: "fst (subscribe (fst (subscribe w f)) f) = fst (subscribe w f)"
    by (simp add: subscribe_def js_set_add_def)
  from assms have "distinct (listeners (service (fst (subscribe w f))))"
    and "f \<in> set (listeners (service (fst (subscribe w f))))"
    by (simp_all add: subscribe_def distinct_js_set_add set_js_set_add)
  then have "filter (\<lambda>c. fst c = f) (map (\<lambda>l. (l, x)) (listeners (service (fst (subscribe w f))))) = [(f, x)]"
    by (rule filter_notified)
  then show "\<exists>w3. setLanguage (fst (subscribe (fst (subscribe w f)) f)) x = Inr w3
             \<and> calls_of f w3 = calls_of f w @ [(f, x)]"
    unfolding twice by (simp add: setLanguage_Inr calls_of_def) (simp add: subscribe_def)
  show "f \<notin> set (listeners (service (snd (subscribe w f) (fst (subscribe (fst (subscribe w f)) f)))))"
    by (simp add: subscribe_def unsubscribe_def set_js_set_delete)
  show "f \<notin> set (listeners (service (snd (subscribe (fst (subscribe w f)) f)
                                          (fst (subscribe (fst (subscribe w f)) f)))))"
    by (simp add: subscribe_def unsubscribe_def set_js_set_delete)
qed

theorem subscribe_same_listener_twice_witness:
  "distinct (listeners (service test_world))
   \<and> fst (subscribe (fst (subscribe test_world 1)) 1) = fst (subscribe test_world 1)
   \<and> (\<exists>w3. setLanguage (fst (subscribe (fst (subscribe test_world 1)) 1)) En = Inr w3
             \<and> calls_of 1 w3 = calls_of 1 test_world @ [(1, En)])"
proof -
  have h: "distinct (listeners (service test_world))"
    by (simp add: test_world_def new_I18nService_def loadLanguageFromStorage_def getItem_def
        empty_storage_def)
  from subscribe_same_listener_twice [OF h, of 1 En] h show ?thesis
    by blast
qed

text \<open>
  The hypothesis of C4 and C10 holds in every world the service can be in: the
  constructor starts with no listener, and no call introduces a repetition.
\<close>

lemma do_calls_distinct:
  "distinct (listeners (service w)) \<Longrightarrow>
   \<exists>w2. do_calls w cs = Inr w2 \<and> distinct (listeners (service w2))"
proof (induction cs arbitrary: w)
  case Nil
  then show ?case by simp
next
  case (Cons c cs)
  from do_call_Inr [of w c] obtain w' where
    w': "do_call w c = Inr w'"
    and ls: "listeners (service w') =
         (case c of Subscribe l \<Rightarrow> js_set_add l (listeners (service w))
                  | Unsubscribe l \<Rightarrow> js_set_delete l (listeners (service w))
                  | SetLanguage x \<Rightarrow> listeners (service w)
                  | LoadTranslations x d \<Rightarrow> listeners (service w))"
    by blast
  from Cons.prems ls have "distinct (listeners (service w'))"
    by (cases c) (simp_all add: distinct_js_set_add distinct_js_set_delete)
  then obtain w2 where "do_calls w' cs = Inr w2" "distinct (listeners (service w2))"
    using Cons.IH by blast
  with w' show ?case by simp
qed

lemma new_I18nService_distinct:
  "\<exists>w2. do_calls (new_I18nService st l) cs = Inr w2 \<and> distinct (listeners (service w2))"
  by (rule do_calls_distinct) (simp add: new_I18nService_def split: prod.splits)

section \<open>The gallery does not render\<close>

text \<open>
  The dependency array of the second \<^verbatim>\<open>useEffect\<close> (line 67) reads \<^verbatim>\<open>handleClose\<close>, which is
  declared at line 83. So every render throws.
\<close>

lemma Gallery_reads_handleClose:
  "first_uninitialised Gallery_scope Gallery_body = Some ''handleClose''"
  by (simp add: Gallery_scope_def Gallery_body_def)

lemma Gallery_render_throws: "Gallery_render g = Inl ReferenceError"
  by (simp add: Gallery_render_def Gallery_reads_handleClose)

text \<open>
  Claim C6 describes next and previous in an open lightbox. No lightbox opens: for every
  list of images the first render of the component throws \<^verbatim>\<open>ReferenceError\<close>, so nothing is
  mounted and no thumbnail, key or button reaches a handler.
\<close>

theorem gallery_mount_throws:
  "first_uninitialised Gallery_scope Gallery_body = Some ''handleClose''
   \<and> gallery_mount imgs = Inl ReferenceError"
  by (simp add: gallery_mount_def Gallery_render_throws Gallery_reads_handleClose)


text \<open>
  Claim C8 says that a change of the image list seeds every image of the new list as
  loading and resets the per-image state. The render with the new list throws, and the
  effect of lines 70-76 runs only after a render that is committed.
\<close>

theorem images_changed_throws: "images_changed g imgs = Inl ReferenceError"
  by (simp add: images_changed_def Gallery_render_throws)

text \<open>
  What the closures of lines 88-98 and the effect of lines 70-76 compute from the state
  they are given. They would run in a component that had rendered.
\<close>

lemma handleNext_iterate:
  "selectedIndex g = Some i \<Longrightarrow> i < int (length (images g)) \<Longrightarrow>
   selectedIndex ((handleNext ^^ k) g) = Some (min (i + int k) (int (length (images g)) - 1))
   \<and> images ((handleNext ^^ k) g) = images g
   \<and> isLightboxOpen ((handleNext ^^ k) g) = isLightboxOpen g"
proof (induction k)
  case 0
  then show ?case by simp
next
  case (Suc k)
  then show ?case by (auto simp: handleNext_def)
qed

lemma handlePrevious_iterate:
  "selectedIndex g = Some i \<Longrightarrow> 0 \<le> i \<Longrightarrow>
   selectedIndex ((handlePrevious ^^ k) g) = Some (max (i - int k) 0)
   \<and> isLightboxOpen ((handlePrevious ^^ k) g) = isLightboxOpen g"
proof (induction k)
  case 0
  then show ?case by simp
next
  case (Suc k)
  then show ?case by (auto simp: handlePrevious_def)
qed

lemma initialLoadingStates_fold:
  "foldl (\<lambda>m image. m(image_id image \<mapsto> True)) m0 imgs =
     (\<lambda>k. if k \<in> image_id ` set imgs then Some True else m0 k)"
  by (induction imgs arbitrary: m0) (auto simp: fun_eq_iff)

lemma images_effect_body:
  "loadingStates (images_effect g) = (\<lambda>k. if k \<in> image_id ` set (images g) then Some True else None)
   \<and> errorStates (images_effect g) = errorStates g
   \<and> selectedIndex (images_effect g) = selectedIndex g
   \<and> isLightboxOpen (images_effect g) = isLightboxOpen g"
  by (simp add: images_effect_def initialLoadingStates_def initialLoadingStates_fold)

section \<open>Lazy loading without IntersectionObserver\<close>

text \<open>
  Claim C9. Where \<^verbatim>\<open>window\<close> has no \<^verbatim>\<open>IntersectionObserver\<close> and the hook's ref holds an
  element, the hook's effect returns normally with \<^verbatim>\<open>hasIntersected\<close> (and
  \<^verbatim>\<open>isIntersecting\<close>) set to true, without constructing an observer, and mounting a
  \<^verbatim>\<open>LazyImage\<close> sets its \<^verbatim>\<open>imageSrc\<close> to the source, which starts the load.
\<close>

theorem lazy_load_fails_open:
  assumes "\<not> has_IntersectionObserver d" and "element_attached d"
  shows "useLazyLoad_effect d st = Inr (st\<lparr>isIntersecting := True, hasIntersected := True\<rparr>)
       \<and> (\<exists>li. LazyImage_mount d src = Inr li \<and> hasIntersected (lazy li) \<and> imageSrc li = Some src)"
  using assms
  by (simp add: useLazyLoad_effect_def LazyImage_mount_def LazyImage_effect_def
      lazy_image_initial_def lazy_load_initial_def)

theorem lazy_load_fails_open_witness:
  "\<not> has_IntersectionObserver old_browser \<and> element_attached old_browser
   \<and> useLazyLoad_effect old_browser lazy_load_initial
       = Inr \<lparr>isIntersecting = True, hasIntersected = True, observing = False\<rparr>
   \<and> (\<exists>li. LazyImage_mount old_browser ''/thumbs/a.jpg'' = Inr li \<and> hasIntersected (lazy li)
         \<and> imageSrc li = Some ''/thumbs/a.jpg'')"
proof -
  have h1: "\<not> has_IntersectionObserver old_browser" and h2: "element_attached old_browser"
    by (simp_all add: old_browser_def)
  from lazy_load_fails_open [OF h1 h2, of lazy_load_initial "''/thumbs/a.jpg''"] h1 h2
  show ?thesis by (simp add: lazy_load_initial_def)
qed

end
